theory Spec2Isabelle
  imports Main "HOL-Library.Word" "HOL-Library.Log_Nat"
begin

section \<open>AnimGraphOptions: two persisted boolean preferences\<close>

text \<open>
  The settings store is Qt's \<open>QSettings\<close>: a map from key strings to \<open>QVariant\<close>s.
  The code builds variants from booleans only and inspects them with \<open>isNull\<close> and
  \<open>toBool\<close>; \<open>QSettings::value\<close> returns the invalid (null) variant for a key that is
  not in the store.
\<close>

datatype QVariant = QVariant_invalid | QVariant_bool bool

fun isNull :: "QVariant \<Rightarrow> bool" where
  "isNull QVariant_invalid = True"
| "isNull (QVariant_bool b) = False"

fun toBool :: "QVariant \<Rightarrow> bool" where
  "toBool QVariant_invalid = False"
| "toBool (QVariant_bool b) = b"

type_synonym QSettings = "string \<rightharpoonup> QVariant"

definition setValue :: "QSettings \<Rightarrow> string \<Rightarrow> QVariant \<Rightarrow> QSettings" where
  "setValue settings key v = settings(key \<mapsto> v)"

definition settings_value :: "QSettings \<Rightarrow> string \<Rightarrow> QVariant" where
  "settings_value settings key =
     (case settings key of None \<Rightarrow> QVariant_invalid | Some v \<Rightarrow> v)"

record AnimGraphOptions =
  m_graphAnimation :: bool
  m_showFPS :: bool

definition s_graphAnimationOptionName :: string where
  "s_graphAnimationOptionName = ''useGraphAnimation''"

definition s_showFPSOptionName :: string where
  "s_showFPSOptionName = ''showFPS''"

text \<open>The constructor: graph animation on, FPS display off.\<close>

definition AnimGraphOptions_ctor :: AnimGraphOptions where
  "AnimGraphOptions_ctor = \<lparr>m_graphAnimation = True, m_showFPS = False\<rparr>"

definition Save :: "AnimGraphOptions \<Rightarrow> QSettings \<Rightarrow> QSettings" where
  "Save this settings =
     (let settings = setValue settings s_graphAnimationOptionName
                       (QVariant_bool (m_graphAnimation this));
          settings = setValue settings s_showFPSOptionName
                       (QVariant_bool (m_showFPS this))
      in settings)"

definition Load :: "QSettings \<Rightarrow> AnimGraphOptions" where
  "Load settings =
     (let options = AnimGraphOptions_ctor;
          tmpVariant = settings_value settings s_graphAnimationOptionName;
          options = (if \<not> isNull tmpVariant
                     then options\<lparr>m_graphAnimation := toBool tmpVariant\<rparr>
                     else options);
          tmpVariant = settings_value settings s_showFPSOptionName;
          options = (if \<not> isNull tmpVariant
                     then options\<lparr>m_showFPS := toBool tmpVariant\<rparr>
                     else options)
      in options)"

text \<open>
  A change callback sends \<open>OnOptionChanged\<close> with the option's name on the
  notification bus; the setters return the events they sent next to the new state.
\<close>

datatype notification = OnOptionChanged string

definition OnGraphAnimationChangedCallback :: "notification list" where
  "OnGraphAnimationChangedCallback = [OnOptionChanged s_graphAnimationOptionName]"

definition OnShowFPSChangedCallback :: "notification list" where
  "OnShowFPSChangedCallback = [OnOptionChanged s_showFPSOptionName]"

definition SetGraphAnimation ::
  "bool \<Rightarrow> AnimGraphOptions \<Rightarrow> AnimGraphOptions \<times> notification list" where
  "SetGraphAnimation graphAnimation this =
     (if graphAnimation \<noteq> m_graphAnimation this
      then (this\<lparr>m_graphAnimation := graphAnimation\<rparr>, OnGraphAnimationChangedCallback)
      else (this, []))"

definition SetShowFPS ::
  "bool \<Rightarrow> AnimGraphOptions \<Rightarrow> AnimGraphOptions \<times> notification list" where
  "SetShowFPS showFPS this =
     (if showFPS \<noteq> m_showFPS this
      then (this\<lparr>m_showFPS := showFPS\<rparr>, OnShowFPSChangedCallback)
      else (this, []))"

section \<open>PackedVector3: three scalars of one type\<close>

text \<open>
  \<open>PackedVector3<TYPE>\<close> has the fields \<open>m_x\<close>, \<open>m_y\<close>, \<open>m_z\<close>, all of the template's
  \<open>TYPE\<close>; the sources name the instances \<open>PackedVector3f\<close> (\<open>float\<close>) and
  \<open>PackedVector3i\<close> (\<open>int32_t\<close>).
\<close>

record 'a PackedVector3 =
  m_x :: 'a
  m_y :: 'a
  m_z :: 'a

text \<open>
  \<open>AZ::Vector3\<close> is declared outside these sources. All that is used of it here is its
  three-scalar constructor and the getters \<open>GetX\<close>, \<open>GetY\<close>, \<open>GetZ\<close>; the type \<open>'f\<close> of
  its components (single-precision floats in the engine) is a parameter.
\<close>

datatype 'f Vector3 = Vector3 'f 'f 'f

fun Vector3_GetX :: "'f Vector3 \<Rightarrow> 'f" where
  "Vector3_GetX (Vector3 vx vy vz) = vx"

fun Vector3_GetY :: "'f Vector3 \<Rightarrow> 'f" where
  "Vector3_GetY (Vector3 vx vy vz) = vy"

fun Vector3_GetZ :: "'f Vector3 \<Rightarrow> 'f" where
  "Vector3_GetZ (Vector3 vx vy vz) = vz"

text \<open>
  The member initialisers \<open>m_x(rhs.GetX())\<close> convert a component of the vector to
  \<open>TYPE\<close>, and \<open>AZ::Vector3(m_x, m_y, m_z)\<close> converts back; both conversions are
  C++'s implicit ones, here the parameters \<open>to_TYPE\<close> and \<open>of_TYPE\<close>. For
  \<open>TYPE = float\<close> both are the identity.
\<close>

definition PackedVector3_of_Vector3 :: "('f \<Rightarrow> 'a) \<Rightarrow> 'f Vector3 \<Rightarrow> 'a PackedVector3" where
  "PackedVector3_of_Vector3 to_TYPE rhs =
     \<lparr>m_x = to_TYPE (Vector3_GetX rhs),
      m_y = to_TYPE (Vector3_GetY rhs),
      m_z = to_TYPE (Vector3_GetZ rhs)\<rparr>"

definition operator_Vector3 :: "('a \<Rightarrow> 'f) \<Rightarrow> 'a PackedVector3 \<Rightarrow> 'f Vector3" where
  "operator_Vector3 of_TYPE this =
     Vector3 (of_TYPE (m_x this)) (of_TYPE (m_y this)) (of_TYPE (m_z this))"

text \<open>
  The conversions of the \<open>int32_t\<close> instance, on the finite values of a float taken as
  the real numbers they denote. Converting a floating-point value to an integer type
  discards the fractional part (the behaviour is undefined when the result does not fit;
  the model wraps it there). Converting an integer to \<open>float\<close> is exact up to 24
  significant bits and rounds to the nearest float, ties to even, beyond.
\<close>

definition float_to_int32 :: "real \<Rightarrow> 32 word" where
  "float_to_int32 f = word_of_int (if 0 \<le> f then \<lfloor>f\<rfloor> else \<lceil>f\<rceil>)"

definition nearest_float :: "int \<Rightarrow> int" where
  "nearest_float n =
     (let a = \<bar>n\<bar>; e = bitlen a - 24
      in if e \<le> 0 then n
         else let u = 2 ^ nat e; q = a div u; r = a mod u;
                  q' = (if u < 2 * r \<or> (2 * r = u \<and> odd q) then q + 1 else q)
              in sgn n * (q' * u))"

definition int32_to_float :: "32 word \<Rightarrow> real" where
  "int32_to_float i = real_of_int (nearest_float (sint i))"

definition PackedVector3_GetX :: "'a PackedVector3 \<Rightarrow> 'a" where
  "PackedVector3_GetX this = m_x this"

definition PackedVector3_GetY :: "'a PackedVector3 \<Rightarrow> 'a" where
  "PackedVector3_GetY this = m_y this"

definition PackedVector3_GetZ :: "'a PackedVector3 \<Rightarrow> 'a" where
  "PackedVector3_GetZ this = m_z this"

text \<open>
  \<open>reinterpret_cast<TYPE*>(this)\<close> reads the object as an array of \<open>TYPE\<close>. The
  object holds the three fields in declaration order and nothing between them, so the
  array is \<open>[m_x, m_y, m_z]\<close>; \<open>elements\<close> and \<open>of_elements\<close> are the two directions
  of that view. An index of 3 or more is outside the object: the access is undefined,
  here \<open>None\<close>.
\<close>

definition elements :: "'a PackedVector3 \<Rightarrow> 'a list" where
  "elements this = [m_x this, m_y this, m_z this]"

definition of_elements :: "'a list \<Rightarrow> 'a PackedVector3" where
  "of_elements cells = \<lparr>m_x = cells ! 0, m_y = cells ! 1, m_z = cells ! 2\<rparr>"

definition GetElement :: "'a PackedVector3 \<Rightarrow> nat \<Rightarrow> 'a option" where
  "GetElement this index =
     (if index < 3 then Some (elements this ! index) else None)"

definition SetElement :: "'a PackedVector3 \<Rightarrow> nat \<Rightarrow> 'a \<Rightarrow> 'a PackedVector3 option" where
  "SetElement this index val =
     (if index < 3 then Some (of_elements ((elements this)[index := val])) else None)"

section \<open>RuntimeAssetHandler: loading and saving the runtime graph asset\<close>

text \<open>
  An \<open>Asset<AssetData>\<close> refers to asset data of some type, or to none.
  \<open>asset.GetAs<RuntimeAsset>()\<close> is the data when it is a \<open>RuntimeAsset\<close> and null
  otherwise. \<open>'d\<close> is the type of \<open>m_runtimeData\<close>.
\<close>

datatype 'd AssetData = RuntimeAsset (m_runtimeData: 'd) | OtherAssetData

type_synonym 'd Asset = "'d AssetData option"

fun GetAs_RuntimeAsset :: "'d Asset \<Rightarrow> 'd option" where
  "GetAs_RuntimeAsset (Some (RuntimeAsset d)) = Some d"
| "GetAs_RuntimeAsset (Some OtherAssetData) = None"
| "GetAs_RuntimeAsset None = None"

text \<open>A stream: its bytes and the read position.\<close>

record 'b GenericStream =
  stream_data :: "'b list"
  stream_pos :: nat

definition Seek_begin :: "nat \<Rightarrow> 'b GenericStream \<Rightarrow> 'b GenericStream" where
  "Seek_begin offset stream = stream\<lparr>stream_pos := offset\<rparr>"

text \<open>
  The host's diagnostics: \<open>AZ_Assert\<close> and \<open>AZ_Error\<close> report a message and the
  function goes on; the model returns the reports in a list.
\<close>

datatype diagnostic = AZ_Assert string | AZ_Error string

record 'c RuntimeAssetHandler =
  m_serializeContext :: "'c option"

text \<open>
  \<open>AZ::Utils::LoadObjectFromStreamInPlace\<close> belongs to the serialization framework:
  it is the parameter \<open>load_object\<close>, which reads the stream from its position with
  the context and the filter, and returns the success flag, the object loaded into and
  the stream as it leaves it.
\<close>

type_synonym ('b, 'd, 'c, 'flt) loader =
  "'b GenericStream \<Rightarrow> 'd \<Rightarrow> 'c \<Rightarrow> 'flt \<Rightarrow> bool \<times> 'd \<times> 'b GenericStream"

definition LoadAssetData ::
  "('b, 'd, 'c, 'flt) loader \<Rightarrow> 'c RuntimeAssetHandler \<Rightarrow> 'd Asset \<Rightarrow> 'b GenericStream \<Rightarrow> 'flt
     \<Rightarrow> bool \<times> 'd Asset \<times> 'b GenericStream \<times> diagnostic list" where
  "LoadAssetData load_object this asset stream assetLoadFilterCB =
     (let runtimeAsset = GetAs_RuntimeAsset asset;
          diag = (if runtimeAsset = None
                  then [AZ_Assert ''This should be a Script Canvas runtime asset, as this is the only type we process!'']
                  else [])
      in case (runtimeAsset, m_serializeContext this) of
           (Some d, Some context) \<Rightarrow>
             (let stream = Seek_begin 0 stream;
                  (loadSuccess, d', stream) = load_object stream d context assetLoadFilterCB
              in (loadSuccess, Some (RuntimeAsset d'), stream, diag))
         | _ \<Rightarrow> (False, asset, stream, diag))"

text \<open>
  Loading by path: \<open>FileIOBase::GetInstance()\<close> is the file system when one is
  installed, a map from paths to file contents; a \<open>FileIOStream\<close> on a path is open
  when the file can be opened for reading, and starts at position 0.
\<close>

type_synonym 'b FileIOBase = "string \<rightharpoonup> 'b list"

definition FileIOStream :: "'b FileIOBase \<Rightarrow> string \<Rightarrow> 'b GenericStream option" where
  "FileIOStream fileIO assetPath =
     (case fileIO assetPath of
        None \<Rightarrow> None
      | Some bytes \<Rightarrow> Some \<lparr>stream_data = bytes, stream_pos = 0\<rparr>)"

definition LoadAssetData_path ::
  "('b, 'd, 'c, 'flt) loader \<Rightarrow> 'c RuntimeAssetHandler \<Rightarrow> 'd Asset \<Rightarrow> 'b FileIOBase option
     \<Rightarrow> string \<Rightarrow> 'flt \<Rightarrow> bool \<times> 'd Asset \<times> diagnostic list" where
  "LoadAssetData_path load_object this asset fileIO assetPath assetLoadFilterCB =
     (case fileIO of
        Some io \<Rightarrow>
          (case FileIOStream io assetPath of
             Some stream \<Rightarrow>
               (let (loadSuccess, asset', stream', diag) =
                      LoadAssetData load_object this asset stream assetLoadFilterCB
                in (loadSuccess, asset', diag))
           | None \<Rightarrow> (False, asset, []))
      | None \<Rightarrow> (False, asset, []))"

text \<open>
  Saving creates an XML object stream on the stream, writes the runtime data with
  \<open>WriteClass\<close> and finalizes; both belong to the serialization framework and are the
  parameters \<open>WriteClass\<close> (with the flag it returns) and \<open>Finalize\<close>.
\<close>

definition SaveAssetData ::
  "('b GenericStream \<Rightarrow> 'c \<Rightarrow> 'd \<Rightarrow> bool \<times> 'b GenericStream)
     \<Rightarrow> ('b GenericStream \<Rightarrow> 'b GenericStream)
     \<Rightarrow> 'c RuntimeAssetHandler \<Rightarrow> 'd Asset \<Rightarrow> 'b GenericStream
     \<Rightarrow> bool \<times> 'b GenericStream \<times> diagnostic list" where
  "SaveAssetData WriteClass Finalize this asset stream =
     (let runtimeAsset = GetAs_RuntimeAsset asset;
          diag = (if runtimeAsset = None
                  then [AZ_Assert ''This should be a Script Canvas runtime asset, as this is the only type we process!'']
                  else [])
      in case (runtimeAsset, m_serializeContext this) of
           (Some d, Some context) \<Rightarrow>
             (let (graphSaved, stream) = WriteClass stream context d;
                  stream = Finalize stream
              in (graphSaved, stream, diag))
         | _ \<Rightarrow> (False, stream, diag))"

text \<open>
  \<open>ComponentApplicationBus::BroadcastResult(result, GetSerializeContext)\<close> assigns to
  \<open>result\<close> the answer of each handler connected to the bus, in turn; with no handler
  connected \<open>result\<close> keeps its value. The bus is the list of its handlers' answers
  (a context, or null).
\<close>

definition BroadcastResult_GetSerializeContext :: "'c option \<Rightarrow> 'c option list \<Rightarrow> 'c option" where
  "BroadcastResult_GetSerializeContext result bus = foldl (\<lambda>r answer. answer) result bus"

definition SetSerializeContext ::
  "'c option \<Rightarrow> 'c option list \<Rightarrow> 'c RuntimeAssetHandler
     \<Rightarrow> 'c RuntimeAssetHandler \<times> diagnostic list" where
  "SetSerializeContext context bus this =
     (let this = this\<lparr>m_serializeContext := context\<rparr>
      in if m_serializeContext this = None
         then (let this = this\<lparr>m_serializeContext :=
                            BroadcastResult_GetSerializeContext (m_serializeContext this) bus\<rparr>
               in if m_serializeContext this = None
                  then (this, [AZ_Error ''RuntimeAssetHandler: No serialize context provided! We will not be able to process the Script Canvas Runtime Asset type''])
                  else (this, []))
         else (this, []))"

text \<open>The constructor sets the context it is given by \<open>SetSerializeContext\<close>.\<close>

definition RuntimeAssetHandler_ctor ::
  "'c option \<Rightarrow> 'c option list \<Rightarrow> 'c RuntimeAssetHandler \<times> diagnostic list" where
  "RuntimeAssetHandler_ctor context bus =
     SetSerializeContext context bus \<lparr>m_serializeContext = None\<rparr>"

section \<open>static_storage: a value constructed once and published through an atomic pointer\<close>

text \<open>
  The class has two members: the raw storage \<open>m_storage\<close> that holds the \<open>T\<close>, and the
  atomic pointer \<open>m_object\<close>. Every access to \<open>m_object\<close> in the sources is one atomic
  operation with the default (sequentially consistent) ordering: a \<open>store\<close>, a \<open>load\<close>
  or a \<open>compare_exchange_strong\<close>. An execution is therefore an interleaving of the
  threads' atomic steps, and each member function is a small program whose control
  points are written out below.

  A pointer value is null, the address of \<open>m_storage\<close>, or some other address.
\<close>

datatype ptr = nullptr | storage_addr | other_addr nat

text \<open>
  What \<open>m_storage\<close> holds: untouched memory, a \<open>T\<close> whose constructor is running, a
  fully constructed \<open>T\<close>, or a \<open>T\<close> whose destructor has run.
\<close>

datatype object_state = Raw | Constructing | Constructed | Destroyed

text \<open>The two \<open>Destructor\<close> policies of the sources.\<close>

datatype Destructor = default_destruct | no_destruct

text \<open>
  Control points. The constructor \<open>m_object.store(new (&m_storage) T(args...))\<close>
  enters \<open>T\<close>'s constructor, leaves it, and then stores the address. The reader
  \<open>operator T&\<close> loads \<open>m_object\<close> into \<open>obj\<close>, tests \<open>obj\<close> against the address of
  \<open>m_storage\<close>, and loops or returns \<open>*obj\<close>. The destructor does its compare-and-swap
  and, when that succeeded, calls the \<open>Destructor\<close>; it returns having cleaned up
  (\<open>True\<close>) or not (\<open>False\<close>).
\<close>

datatype ctor_pc = Ctor_new | Ctor_running | Ctor_store | Ctor_returned

datatype reader_pc = Read_load | Read_test ptr | Read_returned ptr

datatype dtor_pc = Dtor_cas | Dtor_destroy | Dtor_returned bool

text \<open>
  The state of one instance: the two members, the control point of the thread in the
  constructor (an object is constructed once), those of the threads in \<open>operator T&\<close>
  and of the threads in the destructor, and two counters: the calls of the
  \<open>Destructor\<close> functor, and the runs of \<open>T\<close>'s destructor.
\<close>

record static_storage =
  m_object :: ptr
  m_storage :: object_state
  ctor :: ctor_pc
  readers :: "reader_pc list"
  dtors :: "dtor_pc list"
  Destructor_calls :: nat
  T_destructor_runs :: nat

definition ctor_step :: "static_storage \<Rightarrow> static_storage" where
  "ctor_step s =
     (case ctor s of
        Ctor_new \<Rightarrow>
          s\<lparr>m_storage := Constructing, ctor := Ctor_running\<rparr>
      | Ctor_running \<Rightarrow> s\<lparr>m_storage := Constructed, ctor := Ctor_store\<rparr>
      | Ctor_store \<Rightarrow> s\<lparr>m_object := storage_addr, ctor := Ctor_returned\<rparr>
      | Ctor_returned \<Rightarrow> s)"

definition reader_step :: "nat \<Rightarrow> static_storage \<Rightarrow> static_storage" where
  "reader_step i s =
     (if i < length (readers s)
      then (case readers s ! i of
              Read_load \<Rightarrow> s\<lparr>readers := (readers s)[i := Read_test (m_object s)]\<rparr>
            | Read_test obj \<Rightarrow>
                s\<lparr>readers := (readers s)[i :=
                     (if obj \<noteq> storage_addr then Read_load else Read_returned obj)]\<rparr>
            | Read_returned obj \<Rightarrow> s)
      else s)"

text \<open>
  \<open>default_destruct\<close> runs \<open>ptr->~T()\<close>; \<open>no_destruct\<close> does nothing.
\<close>

fun call_Destructor :: "Destructor \<Rightarrow> static_storage \<Rightarrow> static_storage" where
  "call_Destructor default_destruct s =
     s\<lparr>m_storage := Destroyed, T_destructor_runs := Suc (T_destructor_runs s)\<rparr>"
| "call_Destructor no_destruct s = s"

text \<open>
  The compare-and-swap expects the address of \<open>m_storage\<close>: it stores null and succeeds
  when \<open>m_object\<close> holds that address, and fails otherwise, as one step.
\<close>

definition dtor_step :: "Destructor \<Rightarrow> nat \<Rightarrow> static_storage \<Rightarrow> static_storage" where
  "dtor_step D i s =
     (if i < length (dtors s)
      then (case dtors s ! i of
              Dtor_cas \<Rightarrow>
                (if m_object s = storage_addr
                 then s\<lparr>m_object := nullptr, dtors := (dtors s)[i := Dtor_destroy]\<rparr>
                 else s\<lparr>dtors := (dtors s)[i := Dtor_returned False]\<rparr>)
            | Dtor_destroy \<Rightarrow>
                (call_Destructor D s)
                  \<lparr>Destructor_calls := Suc (Destructor_calls s),
                   dtors := (dtors s)[i := Dtor_returned True]\<rparr>
            | Dtor_returned b \<Rightarrow> s)
      else s)"

text \<open>
  A schedule names, step by step, the thread that moves; \<open>run\<close> executes a schedule.
  A thread that has returned, or an index that names no thread, leaves the state as it is.
\<close>

datatype action = Step_ctor | Step_reader nat | Step_dtor nat

fun step :: "Destructor \<Rightarrow> action \<Rightarrow> static_storage \<Rightarrow> static_storage" where
  "step D Step_ctor s = ctor_step s"
| "step D (Step_reader i) s = reader_step i s"
| "step D (Step_dtor i) s = dtor_step D i s"

fun run :: "Destructor \<Rightarrow> action list \<Rightarrow> static_storage \<Rightarrow> static_storage" where
  "run D [] s = s"
| "run D (a # sched) s = run D sched (step D a s)"

text \<open>
  Before the constructor runs: the constructor does not initialise \<open>m_object\<close>
  (``m_object is not initialized, it can only have 1 correct value''), so it holds
  whatever its memory held, \<open>p0\<close> (null in zero-initialised static storage);
  \<open>nr\<close> threads are about to read and \<open>nd\<close> threads about to destroy.
\<close>

definition initial :: "ptr \<Rightarrow> nat \<Rightarrow> nat \<Rightarrow> static_storage" where
  "initial p0 nr nd =
     \<lparr>m_object = p0, m_storage = Raw, ctor = Ctor_new,
      readers = replicate nr Read_load, dtors = replicate nd Dtor_cas,
      Destructor_calls = 0, T_destructor_runs = 0\<rparr>"

text \<open>The pointer a reader has loaded into \<open>obj\<close>, if it has loaded one.\<close>

fun reader_holds :: "reader_pc \<Rightarrow> ptr option" where
  "reader_holds Read_load = None"
| "reader_holds (Read_test obj) = Some obj"
| "reader_holds (Read_returned obj) = Some obj"

text \<open>
  A teardown attempt whose compare-and-swap succeeded; one that has returned; one that
  has returned after calling the \<open>Destructor\<close>; one that has returned without.
\<close>

fun cas_succeeded :: "dtor_pc \<Rightarrow> bool" where
  "cas_succeeded Dtor_cas = False"
| "cas_succeeded Dtor_destroy = True"
| "cas_succeeded (Dtor_returned b) = b"

fun returned :: "dtor_pc \<Rightarrow> bool" where
  "returned (Dtor_returned b) = True"
| "returned d = False"

definition cleaned_up :: "dtor_pc \<Rightarrow> bool" where
  "cleaned_up d = (d = Dtor_returned True)"

definition skipped :: "dtor_pc \<Rightarrow> bool" where
  "skipped d = (d = Dtor_returned False)"

text \<open>
  An instance whose constructor has returned and whose teardown has not begun.
\<close>

definition constructed :: "static_storage \<Rightarrow> bool" where
  "constructed s =
     (ctor s = Ctor_returned \<and> m_object s = storage_addr \<and> m_storage s = Constructed
      \<and> list_all (\<lambda>d. d = Dtor_cas) (dtors s)
      \<and> Destructor_calls s = 0 \<and> T_destructor_runs s = 0)"

text \<open>The schedule that lets every teardown attempt below \<open>n\<close> take its two steps.\<close>

fun teardown_all :: "nat \<Rightarrow> action list" where
  "teardown_all 0 = []"
| "teardown_all (Suc n) = Step_dtor n # Step_dtor n # teardown_all n"

text \<open>
  The invariant of publication. Until the constructor has stored the address,
  \<open>m_object\<close> holds \<open>p0\<close>, no reader holds the address and no compare-and-swap has
  succeeded; afterwards \<open>m_object\<close> is the address of the constructed object, or null
  once a compare-and-swap has succeeded.
\<close>

definition reader_ok :: "ptr \<Rightarrow> reader_pc \<Rightarrow> bool" where
  "reader_ok p0 r =
     (case r of Read_load \<Rightarrow> True
      | Read_test obj \<Rightarrow> obj = p0 \<or> obj = nullptr \<or> obj = storage_addr
      | Read_returned obj \<Rightarrow> obj = storage_addr)"

definition unpublished :: "static_storage \<Rightarrow> bool" where
  "unpublished s =
     (list_all (\<lambda>r. reader_holds r \<noteq> Some storage_addr) (readers s)
      \<and> list_all (\<lambda>d. \<not> cas_succeeded d) (dtors s))"

definition inv1 :: "ptr \<Rightarrow> static_storage \<Rightarrow> bool" where
  "inv1 p0 s =
     (list_all (reader_ok p0) (readers s)
      \<and> (case ctor s of
           Ctor_new \<Rightarrow> m_storage s = Raw \<and> m_object s = p0 \<and> unpublished s
         | Ctor_running \<Rightarrow> m_storage s = Constructing \<and> m_object s = p0 \<and> unpublished s
         | Ctor_store \<Rightarrow> m_storage s = Constructed \<and> m_object s = p0 \<and> unpublished s
         | Ctor_returned \<Rightarrow>
             (m_object s = storage_addr \<and> m_storage s = Constructed
                \<and> list_all (\<lambda>d. \<not> cas_succeeded d) (dtors s))
             \<or> (m_object s = nullptr \<and> (m_storage s = Constructed \<or> m_storage s = Destroyed))))"

text \<open>
  The invariant of teardown: while \<open>m_object\<close> holds the address no attempt has done
  its compare-and-swap; afterwards exactly one has succeeded.
\<close>

definition inv2 :: "Destructor \<Rightarrow> static_storage \<Rightarrow> bool" where
  "inv2 D s =
     (ctor s = Ctor_returned
      \<and> (if m_object s = storage_addr
          then list_all (\<lambda>d. d = Dtor_cas) (dtors s)
          else length (filter cas_succeeded (dtors s)) = 1)
      \<and> Destructor_calls s = length (filter cleaned_up (dtors s))
      \<and> T_destructor_runs s =
          (case D of default_destruct \<Rightarrow> Destructor_calls s | no_destruct \<Rightarrow> 0))"

section \<open>Theorems\<close>

subsection \<open>AnimGraphOptions\<close>

text \<open>
  C6. For every options state and every boolean \<open>b\<close>, \<open>SetGraphAnimation b\<close>
  (respectively \<open>SetShowFPS b\<close>) leaves the targeted field equal to \<open>b\<close>, leaves the
  other field unchanged, and sends the option's change notification exactly when \<open>b\<close>
  differs from the field's previous value (once, and nothing else).
\<close>

theorem setters_notify_on_change:
  "m_graphAnimation (fst (SetGraphAnimation b opts)) = b
   \<and> m_showFPS (fst (SetGraphAnimation b opts)) = m_showFPS opts
   \<and> snd (SetGraphAnimation b opts) =
       (if b = m_graphAnimation opts then []
        else [OnOptionChanged s_graphAnimationOptionName])
   \<and> m_showFPS (fst (SetShowFPS b opts)) = b
   \<and> m_graphAnimation (fst (SetShowFPS b opts)) = m_graphAnimation opts
   \<and> snd (SetShowFPS b opts) =
       (if b = m_showFPS opts then [] else [OnOptionChanged s_showFPSOptionName])"
  by (simp add: SetGraphAnimation_def SetShowFPS_def
      OnGraphAnimationChangedCallback_def OnShowFPSChangedCallback_def)

text \<open>
  C5. \<open>Save\<close> writes exactly the two booleans, under the keys \<open>useGraphAnimation\<close>
  and \<open>showFPS\<close>, and changes no other key; \<open>Load\<close> on a store that \<open>Save\<close> has just
  written returns the saved options; and when a key is absent from the store, \<open>Load\<close>
  leaves that field at its default (graph animation on, FPS display off).
\<close>

theorem save_load_roundtrip:
  "Save opts settings =
     settings(s_graphAnimationOptionName \<mapsto> QVariant_bool (m_graphAnimation opts),
              s_showFPSOptionName \<mapsto> QVariant_bool (m_showFPS opts))
   \<and> Load (Save opts settings) = opts
   \<and> (settings s_graphAnimationOptionName = None \<longrightarrow> m_graphAnimation (Load settings) = True)
   \<and> (settings s_showFPSOptionName = None \<longrightarrow> m_showFPS (Load settings) = False)"
  by (simp add: Save_def Load_def setValue_def settings_value_def AnimGraphOptions_ctor_def
      s_graphAnimationOptionName_def s_showFPSOptionName_def Let_def split: option.split)

theorem save_load_roundtrip_witness:
  "Save \<lparr>m_graphAnimation = False, m_showFPS = True\<rparr> Map.empty =
     [''useGraphAnimation'' \<mapsto> QVariant_bool False, ''showFPS'' \<mapsto> QVariant_bool True]
   \<and> Load (Save \<lparr>m_graphAnimation = False, m_showFPS = True\<rparr> Map.empty)
       = \<lparr>m_graphAnimation = False, m_showFPS = True\<rparr>
   \<and> m_graphAnimation (Load Map.empty) = True
   \<and> m_showFPS (Load Map.empty) = False"
  using save_load_roundtrip [of "\<lparr>m_graphAnimation = False, m_showFPS = True\<rparr>" Map.empty]
  by (simp add: Save_def Load_def setValue_def settings_value_def AnimGraphOptions_ctor_def
      s_graphAnimationOptionName_def s_showFPSOptionName_def Let_def)

subsection \<open>PackedVector3\<close>

lemma nearest_float_0: "nearest_float 0 = 0"
  by code_simp

lemma nearest_float_1: "nearest_float 1 = 1"
  by code_simp

text \<open>
  C4, as the claim states it, fails for \<open>PackedVector3i\<close>: the vector
  \<open>(1.5, 0, 0)\<close> becomes the packed \<open>(1, 0, 0)\<close> and comes back as \<open>(1.0, 0, 0)\<close>.
\<close>

theorem roundtrip_int32_counterexample:
  "operator_Vector3 int32_to_float (PackedVector3_of_Vector3 float_to_int32 (Vector3 1.5 0 0))
     = Vector3 1 0 0
   \<and> Vector3_GetX (operator_Vector3 int32_to_float
         (PackedVector3_of_Vector3 float_to_int32 (Vector3 1.5 0 0)))
       \<noteq> Vector3_GetX (Vector3 1.5 0 0)"
  by (simp add: operator_Vector3_def PackedVector3_of_Vector3_def float_to_int32_def
      int32_to_float_def nearest_float_0 nearest_float_1)

text \<open>
  C4, amended. For every vector \<open>v\<close>, the round trip through a \<open>PackedVector3\<close> whose
  \<open>TYPE\<close> is the vector's own component type (\<open>PackedVector3f\<close>: both conversions are
  the identity) returns \<open>v\<close>; for any other \<open>TYPE\<close> it returns each component converted
  to \<open>TYPE\<close> and back.
\<close>

theorem packed_roundtrip:
  "operator_Vector3 id (PackedVector3_of_Vector3 id v) = v
   \<and> operator_Vector3 of_TYPE (PackedVector3_of_Vector3 to_TYPE v) =
       Vector3 (of_TYPE (to_TYPE (Vector3_GetX v))) (of_TYPE (to_TYPE (Vector3_GetY v)))
               (of_TYPE (to_TYPE (Vector3_GetZ v)))"
  by (cases v) (simp add: operator_Vector3_def PackedVector3_of_Vector3_def)

text \<open>
  C8. With the three fields laid out in declaration order and nothing between them, for
  every packed vector \<open>GetElement\<close> at 0, 1, 2 returns the x, y, z component, and
  \<open>SetElement\<close> at 0, 1, 2 sets that component and leaves the other two as they were.
\<close>

theorem element_access:
  "GetElement p 0 = Some (PackedVector3_GetX p)
   \<and> GetElement p 1 = Some (PackedVector3_GetY p)
   \<and> GetElement p 2 = Some (PackedVector3_GetZ p)
   \<and> SetElement p 0 val = Some (p\<lparr>m_x := val\<rparr>)
   \<and> SetElement p 1 val = Some (p\<lparr>m_y := val\<rparr>)
   \<and> SetElement p 2 val = Some (p\<lparr>m_z := val\<rparr>)"
  by (simp add: GetElement_def SetElement_def elements_def of_elements_def
      PackedVector3_GetX_def PackedVector3_GetY_def PackedVector3_GetZ_def)

subsection \<open>RuntimeAssetHandler\<close>

text \<open>
  C7. Loading from a stream and saving return false whenever the asset is not a
  \<open>RuntimeAsset\<close> or the handler has no serialize context. Loading by path returns false
  when there is no file system instance or the file cannot be opened, and otherwise
  returns what loading from the opened stream returns.
\<close>

theorem load_save_fail_soft:
  "(GetAs_RuntimeAsset asset = None \<or> m_serializeContext h = None \<longrightarrow>
      fst (LoadAssetData ld h asset stream flt) = False
      \<and> fst (SaveAssetData wc fin h asset stream) = False)
   \<and> fst (LoadAssetData_path ld h asset None path flt) = False
   \<and> (io path = None \<longrightarrow> fst (LoadAssetData_path ld h asset (Some io) path flt) = False)
   \<and> (io path = Some bytes \<longrightarrow>
        fst (LoadAssetData_path ld h asset (Some io) path flt) =
        fst (LoadAssetData ld h asset \<lparr>stream_data = bytes, stream_pos = 0\<rparr> flt))"
  by (cases asset rule: GetAs_RuntimeAsset.cases)
     (auto simp: LoadAssetData_def SaveAssetData_def LoadAssetData_path_def FileIOStream_def
        Let_def split: option.splits prod.splits)

theorem load_save_fail_soft_witness:
  "fst (LoadAssetData (\<lambda>s d c f. (True, d, s)) \<lparr>m_serializeContext = Some (0::nat)\<rparr>
         (Some (OtherAssetData :: nat AssetData)) \<lparr>stream_data = [1::nat], stream_pos = 0\<rparr> ()) = False
   \<and> fst (SaveAssetData (\<lambda>s c d. (True, s)) (\<lambda>s. s) \<lparr>m_serializeContext = Some (0::nat)\<rparr>
         (Some (OtherAssetData :: nat AssetData)) \<lparr>stream_data = [1::nat], stream_pos = 0\<rparr>) = False
   \<and> fst (LoadAssetData_path (\<lambda>s d c f. (True, d, s)) \<lparr>m_serializeContext = Some (0::nat)\<rparr>
         (Some (RuntimeAsset (5::nat))) (Some (Map.empty :: nat FileIOBase)) ''a.scriptcanvas_compiled'' ()) = False
   \<and> fst (LoadAssetData_path (\<lambda>s d c f. (True, d, s)) \<lparr>m_serializeContext = Some (0::nat)\<rparr>
         (Some (RuntimeAsset (5::nat))) (Some [''a.scriptcanvas_compiled'' \<mapsto> [1::nat]])
         ''a.scriptcanvas_compiled'' ()) = True"
  using
    load_save_fail_soft [of "Some (OtherAssetData :: nat AssetData)" "\<lparr>m_serializeContext = Some (0::nat)\<rparr>"
      "\<lambda>s d c f. (True, d, s)" "\<lparr>stream_data = [1::nat], stream_pos = 0\<rparr>" "()"
      "\<lambda>s c d. (True, s)" "\<lambda>s. s" "''a''" "Map.empty" "[]"]
    load_save_fail_soft [of "Some (RuntimeAsset (5::nat))" "\<lparr>m_serializeContext = Some (0::nat)\<rparr>"
      "\<lambda>s d c f. (True, d, s)" "\<lparr>stream_data = [1::nat], stream_pos = 0\<rparr>" "()"
      "\<lambda>s c d. (True, s)" "\<lambda>s. s" "''a.scriptcanvas_compiled''" "Map.empty" "[]"]
    load_save_fail_soft [of "Some (RuntimeAsset (5::nat))" "\<lparr>m_serializeContext = Some (0::nat)\<rparr>"
      "\<lambda>s d c f. (True, d, s)" "\<lparr>stream_data = [1::nat], stream_pos = 0\<rparr>" "()"
      "\<lambda>s c d. (True, s)" "\<lambda>s. s" "''a.scriptcanvas_compiled''"
      "[''a.scriptcanvas_compiled'' \<mapsto> [1::nat]]" "[1]"]
  by (simp add: LoadAssetData_def)

text \<open>
  C9. When it deserializes, stream-based \<open>LoadAssetData\<close> hands the loader the
  stream at position 0; so the success flag and the loaded asset do not depend on the
  position the stream had on entry.
\<close>

theorem load_seeks_to_start:
  "LoadAssetData ld \<lparr>m_serializeContext = Some c\<rparr> (Some (RuntimeAsset d)) stream flt =
     (let (loadSuccess, d', stream') = ld (stream\<lparr>stream_pos := 0\<rparr>) d c flt
      in (loadSuccess, Some (RuntimeAsset d'), stream', []))
   \<and> fst (LoadAssetData ld h asset (stream\<lparr>stream_pos := p\<rparr>) flt) =
       fst (LoadAssetData ld h asset (stream\<lparr>stream_pos := q\<rparr>) flt)
   \<and> fst (snd (LoadAssetData ld h asset (stream\<lparr>stream_pos := p\<rparr>) flt)) =
       fst (snd (LoadAssetData ld h asset (stream\<lparr>stream_pos := q\<rparr>) flt))"
  by (cases asset rule: GetAs_RuntimeAsset.cases)
     (auto simp: LoadAssetData_def Seek_begin_def Let_def split: option.splits prod.splits)

text \<open>
  C10. \<open>SetSerializeContext\<close> with a null context asks the component application bus
  for the application's serialize context and takes the answer (with one handler
  connected, that handler's context); only when no handler is connected or the answer is
  null does the handler stay without a context, and it reports an error exactly then.
  A handler left without a context returns false from every load and save. A non-null
  context is taken as given, and the constructor sets the context the same way.
\<close>

theorem null_context_falls_back:
  "m_serializeContext (fst (SetSerializeContext None bus h)) =
     BroadcastResult_GetSerializeContext None bus
   \<and> BroadcastResult_GetSerializeContext None [] = None
   \<and> BroadcastResult_GetSerializeContext None [answer] = answer
   \<and> (snd (SetSerializeContext None bus h) = []) =
       (BroadcastResult_GetSerializeContext None bus \<noteq> None)
   \<and> SetSerializeContext (Some c) bus h = (h\<lparr>m_serializeContext := Some c\<rparr>, [])
   \<and> RuntimeAssetHandler_ctor context bus =
       SetSerializeContext context bus \<lparr>m_serializeContext = None\<rparr>
   \<and> (m_serializeContext (fst (SetSerializeContext None bus h)) = None \<longrightarrow>
        fst (LoadAssetData ld (fst (SetSerializeContext None bus h)) asset stream flt) = False
        \<and> fst (LoadAssetData_path ld (fst (SetSerializeContext None bus h)) asset fileIO path flt) = False
        \<and> fst (SaveAssetData wc fin (fst (SetSerializeContext None bus h)) asset stream) = False)"
  by (auto simp: SetSerializeContext_def BroadcastResult_GetSerializeContext_def Let_def
        RuntimeAssetHandler_ctor_def LoadAssetData_def LoadAssetData_path_def SaveAssetData_def
        split: option.splits prod.splits)

theorem null_context_falls_back_witness:
  "m_serializeContext (fst (SetSerializeContext None [Some (7::nat)] \<lparr>m_serializeContext = None\<rparr>)) = Some 7
   \<and> snd (SetSerializeContext None [Some (7::nat)] \<lparr>m_serializeContext = None\<rparr>) = []
   \<and> m_serializeContext (fst (SetSerializeContext None [] \<lparr>m_serializeContext = Some (3::nat)\<rparr>)) = None
   \<and> snd (SetSerializeContext None [] \<lparr>m_serializeContext = Some (3::nat)\<rparr>) \<noteq> []
   \<and> fst (LoadAssetData (\<lambda>s d c f. (True, d, s))
         (fst (SetSerializeContext None [] \<lparr>m_serializeContext = Some (3::nat)\<rparr>))
         (Some (RuntimeAsset (5::nat))) \<lparr>stream_data = [1::nat], stream_pos = 0\<rparr> ()) = False
   \<and> fst (LoadAssetData_path (\<lambda>s d c f. (True, d, s))
         (fst (SetSerializeContext None [] \<lparr>m_serializeContext = Some (3::nat)\<rparr>))
         (Some (RuntimeAsset (5::nat))) (Some [''a'' \<mapsto> [1::nat]]) ''a'' ()) = False
   \<and> fst (SaveAssetData (\<lambda>s c d. (True, s)) (\<lambda>s. s)
         (fst (SetSerializeContext None [] \<lparr>m_serializeContext = Some (3::nat)\<rparr>))
         (Some (RuntimeAsset (5::nat))) \<lparr>stream_data = [1::nat], stream_pos = 0\<rparr>) = False"
  using
    null_context_falls_back [of "[Some (7::nat)]" "\<lparr>m_serializeContext = None\<rparr>" "Some 7" 7 None
      "\<lambda>s d c f. (True, d, s)" "Some (RuntimeAsset (5::nat))"
      "\<lparr>stream_data = [1::nat], stream_pos = 0\<rparr>" "()" "Some [''a'' \<mapsto> [1::nat]]" "''a''"
      "\<lambda>s c d. (True, s)" "\<lambda>s. s"]
    null_context_falls_back [of "[]" "\<lparr>m_serializeContext = Some (3::nat)\<rparr>" "Some 7" 7 None
      "\<lambda>s d c f. (True, d, s)" "Some (RuntimeAsset (5::nat))"
      "\<lparr>stream_data = [1::nat], stream_pos = 0\<rparr>" "()" "Some [''a'' \<mapsto> [1::nat]]" "''a''"
      "\<lambda>s c d. (True, s)" "\<lambda>s. s"]
  by (simp add: SetSerializeContext_def BroadcastResult_GetSerializeContext_def)

subsection \<open>static_storage\<close>

text \<open>Publication: the invariant holds initially and every step keeps it.\<close>

lemma list_all_update: "list_all P xs \<Longrightarrow> P v \<Longrightarrow> list_all P (xs[i := v])"
  by (induction xs arbitrary: i) (auto split: nat.splits)

lemma list_all_nth: "list_all P xs \<Longrightarrow> i < length xs \<Longrightarrow> P (xs ! i)"
  by (simp add: list_all_length)

lemma inv1_initial: "p0 \<noteq> storage_addr \<Longrightarrow> inv1 p0 (initial p0 nr nd)"
  by (simp add: inv1_def initial_def unpublished_def reader_ok_def list_all_length)

lemma inv1_ctor_step: "p0 \<noteq> storage_addr \<Longrightarrow> inv1 p0 s \<Longrightarrow> inv1 p0 (ctor_step s)"
  by (auto simp: inv1_def ctor_step_def unpublished_def split: ctor_pc.splits)

lemma inv1_reader_step:
  assumes "p0 \<noteq> storage_addr" "inv1 p0 s"
  shows "inv1 p0 (reader_step i s)"
proof (cases "i < length (readers s)")
  case False
  then show ?thesis using assms by (simp add: reader_step_def)
next
  case True
  have ok: "reader_ok p0 (readers s ! i)"
    using assms True by (simp add: inv1_def list_all_length)
  show ?thesis
  proof (cases "readers s ! i")
    case Read_load
    then show ?thesis
      using assms True
      by (auto simp: inv1_def reader_step_def unpublished_def reader_ok_def
            intro!: list_all_update split: ctor_pc.splits)
  next
    case (Read_test obj)
    then show ?thesis
      using assms True ok
      by (auto simp: inv1_def reader_step_def unpublished_def reader_ok_def
            intro!: list_all_update dest: list_all_nth split: ctor_pc.splits)
  next
    case (Read_returned obj)
    then show ?thesis using assms True by (simp add: reader_step_def)
  qed
qed

lemma inv1_dtor_step:
  assumes "p0 \<noteq> storage_addr" "inv1 p0 s"
  shows "inv1 p0 (dtor_step D i s)"
proof (cases "i < length (dtors s)")
  case False
  then show ?thesis using assms by (simp add: dtor_step_def)
next
  case True
  show ?thesis
  proof (cases "dtors s ! i")
    case Dtor_cas
    then show ?thesis
      using assms True
      by (auto simp: inv1_def dtor_step_def unpublished_def
            intro!: list_all_update split: ctor_pc.splits)
  next
    case Dtor_destroy
    then have w: "cas_succeeded (dtors s ! i)" by simp
    have "ctor s = Ctor_returned"
    proof (rule ccontr)
      assume "ctor s \<noteq> Ctor_returned"
      then have "unpublished s" using assms by (auto simp: inv1_def split: ctor_pc.splits)
      then have "\<not> cas_succeeded (dtors s ! i)" using True by (simp add: unpublished_def list_all_length)
      then show False using w by simp
    qed
    then show ?thesis
      using assms True Dtor_destroy
      by (cases D) (auto simp: inv1_def dtor_step_def dest: list_all_nth)
  next
    case (Dtor_returned b)
    then show ?thesis using assms True by (simp add: dtor_step_def)
  qed
qed

lemma inv1_step: "p0 \<noteq> storage_addr \<Longrightarrow> inv1 p0 s \<Longrightarrow> inv1 p0 (step D a s)"
  by (cases a) (simp_all add: inv1_ctor_step inv1_reader_step inv1_dtor_step)

lemma inv1_run: "p0 \<noteq> storage_addr \<Longrightarrow> inv1 p0 s \<Longrightarrow> inv1 p0 (run D sched s)"
  by (induction sched arbitrary: s) (simp_all add: inv1_step)

text \<open>
  C1, as the claim states it, fails before the constructor's store: \<open>m_object\<close> then
  holds what its memory held, which need be neither null nor the address of the
  storage, and a reader that loads it observes that value.
\<close>

theorem uninitialised_pointer_counterexample:
  "m_object (initial (other_addr 1) 1 0) = other_addr 1
   \<and> readers (run default_destruct [Step_reader 0] (initial (other_addr 1) 1 0))
       = [Read_test (other_addr 1)]
   \<and> other_addr 1 \<noteq> nullptr \<and> other_addr 1 \<noteq> storage_addr"
  by (simp add: initial_def reader_step_def)

text \<open>
  C1, amended. Let \<open>p0\<close> be what the memory of \<open>m_object\<close> held before the
  constructor ran (null in zero-initialised static storage), and let it not be the
  address of the storage. Then at every point of every execution \<open>m_object\<close> holds
  \<open>p0\<close>, null or the address of the storage, and when it holds that address the object
  in the storage is fully constructed. A reader in \<open>operator T&\<close> observes no other
  pointer value; it returns only with the address of the storage; and whenever it
  holds that address the object's construction is complete (the object is constructed,
  or already destroyed by a teardown), never under way or not begun.
\<close>

theorem published_pointer_invariant:
  assumes "p0 \<noteq> storage_addr"
  shows "(m_object (run D sched (initial p0 nr nd)) = p0
          \<or> m_object (run D sched (initial p0 nr nd)) = nullptr
          \<or> m_object (run D sched (initial p0 nr nd)) = storage_addr)
       \<and> (m_object (run D sched (initial p0 nr nd)) = storage_addr \<longrightarrow>
            m_storage (run D sched (initial p0 nr nd)) = Constructed)
       \<and> (\<forall>r \<in> set (readers (run D sched (initial p0 nr nd))). \<forall>obj.
            reader_holds r = Some obj \<longrightarrow>
              (obj = p0 \<or> obj = nullptr \<or> obj = storage_addr)
              \<and> (r = Read_returned obj \<longrightarrow> obj = storage_addr)
              \<and> (obj = storage_addr \<longrightarrow>
                   m_storage (run D sched (initial p0 nr nd)) = Constructed
                   \<or> m_storage (run D sched (initial p0 nr nd)) = Destroyed))"
proof -
  define s where "s = run D sched (initial p0 nr nd)"
  have inv: "inv1 p0 s"
    unfolding s_def using assms by (simp add: inv1_run inv1_initial)
  have ptr: "m_object s = p0 \<or> m_object s = nullptr \<or> m_object s = storage_addr"
    using inv by (auto simp: inv1_def split: ctor_pc.splits)
  have pub: "m_object s = storage_addr \<longrightarrow> m_storage s = Constructed"
    using inv assms by (auto simp: inv1_def split: ctor_pc.splits)
  have rd: "(obj = p0 \<or> obj = nullptr \<or> obj = storage_addr)
            \<and> (r = Read_returned obj \<longrightarrow> obj = storage_addr)
            \<and> (obj = storage_addr \<longrightarrow> m_storage s = Constructed \<or> m_storage s = Destroyed)"
    if r: "r \<in> set (readers s)" and h: "reader_holds r = Some obj" for r obj
  proof -
    have ok: "reader_ok p0 r"
      using inv r by (simp add: inv1_def list_all_iff)
    have vals: "obj = p0 \<or> obj = nullptr \<or> obj = storage_addr"
      using ok h by (cases r) (auto simp: reader_ok_def)
    have ret: "r = Read_returned obj \<longrightarrow> obj = storage_addr"
      using ok by (auto simp: reader_ok_def)
    have built: "m_storage s = Constructed \<or> m_storage s = Destroyed" if "obj = storage_addr"
    proof -
      have "\<not> unpublished s"
        using r h that by (auto simp: unpublished_def list_all_iff)
      then show ?thesis
        using inv by (auto simp: inv1_def split: ctor_pc.splits)
    qed
    show ?thesis using vals ret built by blast
  qed
  show ?thesis
    using ptr pub rd unfolding s_def by blast
qed

theorem published_pointer_invariant_witness:
  "other_addr 1 \<noteq> storage_addr
   \<and> m_object (run default_destruct [Step_reader 0] (initial (other_addr 1) 1 1)) = other_addr 1
   \<and> readers (run default_destruct [Step_reader 0] (initial (other_addr 1) 1 1))
       = [Read_test (other_addr 1)]
   \<and> m_object (run default_destruct
        [Step_reader 0, Step_reader 0, Step_ctor, Step_ctor, Step_ctor, Step_reader 0, Step_reader 0]
        (initial (other_addr 1) 1 1)) = storage_addr
   \<and> m_storage (run default_destruct
        [Step_reader 0, Step_reader 0, Step_ctor, Step_ctor, Step_ctor, Step_reader 0, Step_reader 0]
        (initial (other_addr 1) 1 1)) = Constructed
   \<and> readers (run default_destruct
        [Step_reader 0, Step_reader 0, Step_ctor, Step_ctor, Step_ctor, Step_reader 0, Step_reader 0]
        (initial (other_addr 1) 1 1)) = [Read_returned storage_addr]"
  using
    published_pointer_invariant [of "other_addr 1" default_destruct "[Step_reader 0]" 1 1]
    published_pointer_invariant [of "other_addr 1" default_destruct
      "[Step_reader 0, Step_reader 0, Step_ctor, Step_ctor, Step_ctor, Step_reader 0, Step_reader 0]" 1 1]
  by (simp add: initial_def ctor_step_def reader_step_def)

text \<open>Teardown: counting the attempts whose compare-and-swap succeeded.\<close>

lemma filter_update_count:
  "i < length xs \<Longrightarrow>
   length (filter P (xs[i := v])) + (if P (xs ! i) then 1 else 0)
     = length (filter P xs) + (if P v then 1 else 0)"
proof (induction xs arbitrary: i)
  case Nil
  then show ?case by simp
next
  case (Cons x xs)
  show ?case
  proof (cases i)
    case 0
    then show ?thesis by simp
  next
    case (Suc j)
    then have "j < length xs" using Cons.prems by simp
    from Cons.IH [OF this] show ?thesis using Suc by simp
  qed
qed

lemma filter_none: "list_all (\<lambda>d. \<not> P d) xs \<Longrightarrow> length (filter P xs) = 0"
  by (induction xs) auto

lemma cleaned_up_le_won: "length (filter cleaned_up xs) \<le> length (filter cas_succeeded xs)"
  by (induction xs) (auto simp: cleaned_up_def)

lemma inv2_constructed: "constructed s \<Longrightarrow> inv2 D s"
proof -
  assume c: "constructed s"
  then have "list_all (\<lambda>d. \<not> cleaned_up d) (dtors s)"
    by (auto simp: constructed_def cleaned_up_def list_all_iff)
  then have "length (filter cleaned_up (dtors s)) = 0"
    by (rule filter_none)
  then show ?thesis
    using c by (cases D) (simp_all add: constructed_def inv2_def)
qed

lemma inv2_ctor_step: "inv2 D s \<Longrightarrow> inv2 D (ctor_step s)"
  by (simp add: inv2_def ctor_step_def)

lemma inv2_reader_step: "inv2 D s \<Longrightarrow> inv2 D (reader_step i s)"
  by (cases D) (auto simp: inv2_def reader_step_def split: reader_pc.splits)

lemma inv2_dtor_step:
  assumes "inv2 D s"
  shows "inv2 D (dtor_step D i s)"
proof (cases "i < length (dtors s)")
  case False
  then show ?thesis using assms by (simp add: dtor_step_def)
next
  case True
  note upd_won = filter_update_count [OF True, of cas_succeeded]
  note upd_cl = filter_update_count [OF True, of cleaned_up]
  show ?thesis
  proof (cases "dtors s ! i")
    case Dtor_cas
    show ?thesis
    proof (cases "m_object s = storage_addr")
      case pub: True
      then have "list_all (\<lambda>d. \<not> cas_succeeded d) (dtors s)"
        using assms by (auto simp: inv2_def list_all_iff)
      then have "length (filter cas_succeeded (dtors s)) = 0" by (rule filter_none)
      then show ?thesis
        using assms True Dtor_cas pub upd_won [of Dtor_destroy] upd_cl [of Dtor_destroy]
        by (cases D) (simp_all add: inv2_def dtor_step_def cleaned_up_def)
    next
      case False
      then show ?thesis
        using assms True Dtor_cas upd_won [of "Dtor_returned False"]
          upd_cl [of "Dtor_returned False"]
        by (cases D) (simp_all add: inv2_def dtor_step_def cleaned_up_def)
    qed
  next
    case Dtor_destroy
    have "m_object s \<noteq> storage_addr"
    proof
      assume "m_object s = storage_addr"
      then have "dtors s ! i = Dtor_cas"
        using assms True by (simp add: inv2_def list_all_length)
      then show False using Dtor_destroy by simp
    qed
    then show ?thesis
      using assms True Dtor_destroy upd_won [of "Dtor_returned True"]
        upd_cl [of "Dtor_returned True"]
      by (cases D) (simp_all add: inv2_def dtor_step_def cleaned_up_def)
  next
    case (Dtor_returned b)
    then show ?thesis using assms True by (simp add: dtor_step_def)
  qed
qed

lemma inv2_step: "inv2 D s \<Longrightarrow> inv2 D (step D a s)"
  by (cases a) (simp_all add: inv2_ctor_step inv2_reader_step inv2_dtor_step)

lemma inv2_run: "inv2 D s \<Longrightarrow> inv2 D (run D sched s)"
  by (induction sched arbitrary: s) (simp_all add: inv2_step)

lemma length_dtors_step: "length (dtors (step D a s)) = length (dtors s)"
  by (cases a; cases D)
     (auto simp: ctor_step_def reader_step_def dtor_step_def
        split: ctor_pc.splits reader_pc.splits dtor_pc.splits)

lemma length_dtors_run: "length (dtors (run D sched s)) = length (dtors s)"
  by (induction sched arbitrary: s) (simp_all add: length_dtors_step)

lemma returned_split:
  "list_all returned xs \<Longrightarrow>
   length (filter cleaned_up xs) + length (filter skipped xs) = length xs
   \<and> length (filter cas_succeeded xs) = length (filter cleaned_up xs)"
proof (induction xs)
  case Nil
  then show ?case by simp
next
  case (Cons d xs)
  then show ?case by (cases d) (auto simp: cleaned_up_def skipped_def)
qed

lemma run_append: "run D (xs @ ys) s = run D ys (run D xs s)"
  by (induction xs arbitrary: s) simp_all

lemma returned_stable_step:
  "j < length (dtors s) \<Longrightarrow> returned (dtors s ! j) \<Longrightarrow> returned (dtors (step D a s) ! j)"
  by (cases a; cases D)
     (auto simp: ctor_step_def reader_step_def dtor_step_def nth_list_update
        split: ctor_pc.splits reader_pc.splits dtor_pc.splits)

lemma returned_stable_run:
  "j < length (dtors s) \<Longrightarrow> returned (dtors s ! j) \<Longrightarrow> returned (dtors (run D sched s) ! j)"
  by (induction sched arbitrary: s) (simp_all add: returned_stable_step length_dtors_step)

lemma two_steps_return:
  "i < length (dtors s) \<Longrightarrow> returned (dtors (dtor_step D i (dtor_step D i s)) ! i)"
  by (cases D; cases "dtors s ! i") (auto simp: dtor_step_def)

lemma teardown_all_returns:
  "n \<le> length (dtors s) \<Longrightarrow> j < n \<Longrightarrow> returned (dtors (run D (teardown_all n) s) ! j)"
proof (induction n arbitrary: s)
  case 0
  then show ?case by simp
next
  case (Suc n)
  define s' where "s' = dtor_step D n (dtor_step D n s)"
  have len: "length (dtors s') = length (dtors s)"
    using length_dtors_step [of D "Step_dtor n"] by (simp add: s'_def)
  have run: "run D (teardown_all (Suc n)) s = run D (teardown_all n) s'"
    by (simp add: s'_def)
  show ?case
  proof (cases "j = n")
    case True
    have "returned (dtors s' ! n)"
      unfolding s'_def using Suc.prems by (intro two_steps_return) simp
    then show ?thesis
      using True run len Suc.prems by (simp add: returned_stable_run)
  next
    case False
    then have "j < n" using Suc.prems by simp
    then show ?thesis
      using Suc.IH [of s' ] run len Suc.prems by simp
  qed
qed

lemma construct_example:
  "run default_destruct [Step_ctor, Step_ctor, Step_ctor] (initial nullptr 1 3)
   = \<lparr>m_object = storage_addr, m_storage = Constructed, ctor = Ctor_returned,
      readers = [Read_load], dtors = [Dtor_cas, Dtor_cas, Dtor_cas],
      Destructor_calls = 0, T_destructor_runs = 0\<rparr>"
  by (simp add: initial_def ctor_step_def numeral_3_eq_3)

lemma teardown_example:
  "run default_destruct
     [Step_dtor 1, Step_dtor 0, Step_dtor 2, Step_dtor 1, Step_reader 0, Step_dtor 2]
     \<lparr>m_object = storage_addr, m_storage = Constructed, ctor = Ctor_returned,
      readers = [Read_load], dtors = [Dtor_cas, Dtor_cas, Dtor_cas],
      Destructor_calls = 0, T_destructor_runs = 0\<rparr>
   = \<lparr>m_object = nullptr, m_storage = Destroyed, ctor = Ctor_returned,
      readers = [Read_test nullptr],
      dtors = [Dtor_returned False, Dtor_returned True, Dtor_returned False],
      Destructor_calls = 1, T_destructor_runs = 1\<rparr>"
  by (simp add: reader_step_def dtor_step_def)

text \<open>
  C2. Take an instance whose constructor has returned and any number of teardown
  attempts, interleaved in any way with each other and with readers. At every point at
  most one attempt's compare-and-swap has succeeded and the \<open>Destructor\<close> has been
  called at most once, by the attempts that returned after cleaning up. Once all the
  attempts (at least one) have returned, the \<open>Destructor\<close> has been called exactly
  once and every other attempt has returned without cleanup. With \<open>default_destruct\<close>
  the calls of the \<open>Destructor\<close> are the runs of the wrapped object's destructor
  (with \<open>no_destruct\<close> it never runs). And no attempt is ever stuck: from any point,
  two steps of each attempt make all of them return.
\<close>

theorem destructor_runs_once:
  assumes "constructed s0"
  shows "Destructor_calls (run D sched s0) \<le> 1
       \<and> length (filter cas_succeeded (dtors (run D sched s0))) \<le> 1
       \<and> Destructor_calls (run D sched s0) = length (filter cleaned_up (dtors (run D sched s0)))
       \<and> T_destructor_runs (run D sched s0) =
           (case D of default_destruct \<Rightarrow> Destructor_calls (run D sched s0) | no_destruct \<Rightarrow> 0)
       \<and> (dtors s0 \<noteq> [] \<and> list_all returned (dtors (run D sched s0)) \<longrightarrow>
            Destructor_calls (run D sched s0) = 1
            \<and> length (filter skipped (dtors (run D sched s0))) = length (dtors s0) - 1)
       \<and> list_all returned (dtors (run D (sched @ teardown_all (length (dtors s0))) s0))"
proof -
  define s where "s = run D sched s0"
  have inv: "inv2 D s"
    unfolding s_def using assms by (simp add: inv2_run inv2_constructed)
  have len: "length (dtors s) = length (dtors s0)"
    unfolding s_def by (rule length_dtors_run)
  have won_le: "length (filter cas_succeeded (dtors s)) \<le> 1"
  proof (cases "m_object s = storage_addr")
    case True
    then have "list_all (\<lambda>d. \<not> cas_succeeded d) (dtors s)"
      using inv by (auto simp: inv2_def list_all_iff)
    then show ?thesis by (simp add: filter_none)
  next
    case False
    then show ?thesis using inv by (simp add: inv2_def)
  qed
  have calls: "Destructor_calls s = length (filter cleaned_up (dtors s))"
    using inv by (simp add: inv2_def)
  have calls_le: "Destructor_calls s \<le> 1"
    using calls won_le cleaned_up_le_won [of "dtors s"] by simp
  have runs: "T_destructor_runs s =
      (case D of default_destruct \<Rightarrow> Destructor_calls s | no_destruct \<Rightarrow> 0)"
    using inv by (simp add: inv2_def)
  have final: "Destructor_calls s = 1
      \<and> length (filter skipped (dtors s)) = length (dtors s0) - 1"
    if ne: "dtors s0 \<noteq> []" and ret: "list_all returned (dtors s)"
  proof -
    have "dtors s ! 0 \<noteq> Dtor_cas"
      using ret ne len by (auto simp: list_all_length dest!: spec [of _ 0])
    then have "m_object s \<noteq> storage_addr"
      using inv ne len by (auto simp: inv2_def list_all_length)
    then have "length (filter cas_succeeded (dtors s)) = 1"
      using inv by (simp add: inv2_def)
    then show ?thesis
      using returned_split [OF ret] calls len by auto
  qed
  have completes: "list_all returned (dtors (run D (sched @ teardown_all (length (dtors s0))) s0))"
    unfolding run_append s_def [symmetric]
    using teardown_all_returns [of "length (dtors s0)" s _ D] len
    by (simp add: list_all_length length_dtors_run)
  show ?thesis
    using calls_le won_le calls runs final completes unfolding s_def by blast
qed

theorem destructor_runs_once_witness:
  "constructed (run default_destruct [Step_ctor, Step_ctor, Step_ctor] (initial nullptr 1 3))
   \<and> Destructor_calls (run default_destruct
        [Step_dtor 1, Step_dtor 0, Step_dtor 2, Step_dtor 1, Step_reader 0, Step_dtor 2]
        (run default_destruct [Step_ctor, Step_ctor, Step_ctor] (initial nullptr 1 3))) = 1
   \<and> T_destructor_runs (run default_destruct
        [Step_dtor 1, Step_dtor 0, Step_dtor 2, Step_dtor 1, Step_reader 0, Step_dtor 2]
        (run default_destruct [Step_ctor, Step_ctor, Step_ctor] (initial nullptr 1 3))) = 1
   \<and> dtors (run default_destruct
        [Step_dtor 1, Step_dtor 0, Step_dtor 2, Step_dtor 1, Step_reader 0, Step_dtor 2]
        (run default_destruct [Step_ctor, Step_ctor, Step_ctor] (initial nullptr 1 3)))
       = [Dtor_returned False, Dtor_returned True, Dtor_returned False]"
proof -
  have c: "constructed (run default_destruct [Step_ctor, Step_ctor, Step_ctor] (initial nullptr 1 3))"
    unfolding construct_example by (simp add: constructed_def)
  show ?thesis
    using c destructor_runs_once [OF c, of default_destruct
      "[Step_dtor 1, Step_dtor 0, Step_dtor 2, Step_dtor 1, Step_reader 0, Step_dtor 2]"]
    unfolding construct_example teardown_example by simp
qed

end
